theory Spec2Isabelle
  imports Main "HOL-Library.Sublist"
begin

section \<open>The lazy evaluation framework: tracker and client\<close>

text \<open>
  The notebook \<^verbatim>\<open>nbs/03_Lazy Evaluation Framework.ipynb\<close> exports a dataclass
  \<^verbatim>\<open>LazyState\<close> (the progress tracker) and a class \<^verbatim>\<open>LazyEvaluationClient\<close>
  (the step disclosure controller) that talks to a text generation backend.

  Python text is modelled as \<^typ>\<open>string\<close>, one \<^typ>\<open>char\<close> per code point, so the
  model covers text whose code points are below 256. Python integers are \<^typ>\<open>int\<close>.
  Mutation is explicit state passing, and every exception is a value of \<open>error\<close>.
\<close>

subsection \<open>The builtins the code relies on: \<^verbatim>\<open>str.strip\<close>, \<^verbatim>\<open>repr\<close>, indexing\<close>

text \<open>
  \<^verbatim>\<open>str.strip()\<close> without arguments removes leading and trailing white space. Below
  code point 256 the white space characters are 9 to 13, 28 to 32, 133 and 160.
\<close>

definition isspace :: "char \<Rightarrow> bool" where
  "isspace c =
     (let n = (of_char c :: nat)
      in (9 \<le> n \<and> n \<le> 13) \<or> (28 \<le> n \<and> n \<le> 32) \<or> n = 133 \<or> n = 160)"

definition strip :: "string \<Rightarrow> string" where
  "strip s = rev (dropWhile isspace (rev (dropWhile isspace s)))"

text \<open>
  \<^verbatim>\<open>repr\<close> of a \<^verbatim>\<open>str\<close>: the quote is the double quote exactly when the text has a
  single quote and no double quote; the quote and the backslash are escaped with a
  backslash, tab, newline and carriage return are written \<^verbatim>\<open>\t\<close>, \<^verbatim>\<open>\n\<close>, \<^verbatim>\<open>\r\<close>,
  every other non-printable character is written \<^verbatim>\<open>\xhh\<close> with two lower-case
  hexadecimal digits, and a printable character stands for itself. Below 256 the
  printable code points are 32 to 126 and 161 to 255 without 173.
\<close>

definition hexdigits :: string where
  "hexdigits = ''0123456789abcdef''"

definition hex2 :: "nat \<Rightarrow> string" where
  "hex2 n = [hexdigits ! ((n div 16) mod 16), hexdigits ! (n mod 16)]"

definition isprintable :: "char \<Rightarrow> bool" where
  "isprintable c =
     (let n = (of_char c :: nat) in (32 \<le> n \<and> n < 127) \<or> (161 \<le> n \<and> n \<noteq> 173))"

definition repr_char :: "char \<Rightarrow> char \<Rightarrow> string" where
  "repr_char quote ch =
     (if ch = quote \<or> ch = CHR 0x5C then [CHR 0x5C, ch]
      else if ch = CHR 0x09 then [CHR 0x5C, CHR ''t'']
      else if ch = CHR 0x0A then [CHR 0x5C, CHR ''n'']
      else if ch = CHR 0x0D then [CHR 0x5C, CHR ''r'']
      else if isprintable ch then [ch]
      else CHR 0x5C # CHR ''x'' # hex2 (of_char ch))"

definition repr_quote :: "string \<Rightarrow> char" where
  "repr_quote s =
     (if CHR 0x27 \<in> set s \<and> CHR 0x22 \<notin> set s then CHR 0x22 else CHR 0x27)"

definition repr_str :: "string \<Rightarrow> string" where
  "repr_str s = (let q = repr_quote s in q # concat (map (repr_char q) s) @ [q])"

text \<open>\<^verbatim>\<open>sep.join(xs)\<close>, and \<^verbatim>\<open>repr\<close> of a list of \<^verbatim>\<open>str\<close>.\<close>

fun join :: "string \<Rightarrow> string list \<Rightarrow> string" where
  "join sep [] = []"
| "join sep [x] = x"
| "join sep (x # y # ys) = x @ sep @ join sep (y # ys)"

definition repr_list :: "string list \<Rightarrow> string" where
  "repr_list xs = ''['' @ join '', '' (map repr_str xs) @ '']''"

text \<open>The exceptions the code can raise, each with the name or message it carries.\<close>

datatype error =
    NameError string
  | ValueError string
  | AttributeError string
  | IndexError
  | BackendFault string

text \<open>
  \<^verbatim>\<open>xs[i]\<close> on a list: a negative index counts from the end, and an index outside the
  list raises \<^verbatim>\<open>IndexError\<close>.
\<close>

definition getitem :: "'a list \<Rightarrow> int \<Rightarrow> error + 'a" where
  "getitem xs i =
     (if i < - int (length xs) \<or> int (length xs) \<le> i then Inl IndexError
      else if i < 0 then Inr (xs ! nat (i + int (length xs)))
      else Inr (xs ! nat i))"

subsection \<open>The tracker: \<^verbatim>\<open>LazyState\<close>\<close>

record LazyState =
  problem :: string
  steps :: "string list"
  current_step :: int

text \<open>
  \<^verbatim>\<open>__post_init__\<close> appends the problem to \<^verbatim>\<open>steps\<close>. The dataclass constructor
  assigns the three fields and then runs it; \<^verbatim>\<open>LazyState(problem=p)\<close> takes the
  defaults, an empty list and 0. Nothing in the constructor raises, so \<open>create\<close>,
  the constructor call as an operation that could fail, always returns normally.
\<close>

definition post_init :: "LazyState \<Rightarrow> LazyState" where
  "post_init st = st\<lparr>steps := steps st @ [problem st]\<rparr>"

definition new_LazyState :: "string \<Rightarrow> string list \<Rightarrow> int \<Rightarrow> LazyState" where
  "new_LazyState p xs i = post_init \<lparr>problem = p, steps = xs, current_step = i\<rparr>"

definition create :: "string \<Rightarrow> error + LazyState" where
  "create p = Inr (new_LazyState p [] 0)"

definition add_step :: "LazyState \<Rightarrow> string \<Rightarrow> LazyState" where
  "add_step st step = st\<lparr>steps := steps st @ [step], current_step := current_step st + 1\<rparr>"

text \<open>
  \<^verbatim>\<open>f"Problem: {self.problem} \n Steps so far: {self.steps}"\<close>: the problem as it is, a
  space, a newline, and the \<^verbatim>\<open>repr\<close> of the list of steps.
\<close>

definition get_context :: "LazyState \<Rightarrow> string" where
  "get_context st =
     ''Problem: '' @ problem st @ [CHR '' '', CHR 0x0A] @ '' Steps so far: '' @ repr_list (steps st)"

definition refresh :: "LazyState \<Rightarrow> LazyState" where
  "refresh st = st\<lparr>current_step := 0, steps := [problem st]\<rparr>"

subsection \<open>Module globals\<close>

text \<open>
  The methods read two names from the namespace of the module they are defined in:
  \<^verbatim>\<open>system\<close> (in \<^verbatim>\<open>__init__\<close> and \<^verbatim>\<open>get_next_step\<close>) and \<^verbatim>\<open>model\<close> (in \<^verbatim>\<open>lazy\<close>).
  A namespace maps a name to its value; reading a name it does not bind raises
  \<^verbatim>\<open>NameError\<close>. A value is a \<^verbatim>\<open>str\<close> or some other object, which the code only
  passes on or formats and which is carried as the text \<^verbatim>\<open>str()\<close> gives for it.
\<close>

datatype pyval = Str string | Obj string

type_synonym globals = "string \<rightharpoonup> pyval"

fun format_val :: "pyval \<Rightarrow> string" where
  "format_val (Str s) = s"
| "format_val (Obj s) = s"

definition lazy_system_p :: string where
  "lazy_system_p =
     [CHR 0x0A] @
     ''        You are a helpful assistant that can help with math problems.'' @ [CHR 0x0A] @
     ''        You will be given a problem and a list of steps as context, the format will be:'' @ [CHR 0x0A] @
     ''                '' @ [CHR 0x0A] @
     ''        PROBLEM: <problem>'' @ [CHR 0x0A] @
     ''        STEPS: <steps>'' @ [CHR 0x0A] @
     [CHR 0x0A] @
     ''        Your job is to complete the next step and only the next step in the problem-solving process. You should never give more than one step.'' @ [CHR 0x0A] @
     ''        If you evaluate that the problem is done, respond with '' @
       [CHR 0x22] @ ''PROBLEM DONE'' @ [CHR 0x22] @ [CHR 0x0A] @
     ''        ''"

text \<open>
  The namespace of the exported module: the cells marked \<^verbatim>\<open>#| export\<close> in their
  order. The first cell imports five names, then everything three \<^verbatim>\<open>fastcore\<close>
  modules export (\<^verbatim>\<open>from ... import *\<close>; these modules are not part of the
  repository, so what they bind is the parameter \<open>star\<close>), then five more names. The
  later cells bind \<^verbatim>\<open>LazyState\<close>, \<^verbatim>\<open>LLM\<close>, \<^verbatim>\<open>lazy_system_p\<close>,
  \<^verbatim>\<open>LazyEvaluationClient\<close>, \<^verbatim>\<open>ask_question\<close> and \<^verbatim>\<open>lazy\<close>. The cell that assigns
  \<^verbatim>\<open>project_id\<close>, \<^verbatim>\<open>location\<close> and \<^verbatim>\<open>model\<close> is not exported, and no cell assigns
  \<^verbatim>\<open>system\<close>. A later binding replaces an earlier one. Every name but
  \<^verbatim>\<open>lazy_system_p\<close> is bound to an object that is not a \<^verbatim>\<open>str\<close>, carried here under
  the name itself.
\<close>

definition imports_before_star :: "(string \<times> pyval) list" where
  "imports_before_star =
     [(''load_dotenv'', Obj ''load_dotenv''), (''os'', Obj ''os''),
      (''AnthropicVertex'', Obj ''AnthropicVertex''),
      (''MessageParam'', Obj ''MessageParam''), (''Message'', Obj ''Message'')]"

definition bindings_after_star :: "(string \<times> pyval) list" where
  "bindings_after_star =
     [(''dataclass'', Obj ''dataclass''), (''field'', Obj ''field''),
      (''List'', Obj ''List''), (''Optional'', Obj ''Optional''),
      (''show_doc'', Obj ''show_doc''),
      (''LazyState'', Obj ''LazyState''), (''LLM'', Obj ''LLM''),
      (''lazy_system_p'', Str lazy_system_p),
      (''LazyEvaluationClient'', Obj ''LazyEvaluationClient''),
      (''ask_question'', Obj ''ask_question''), (''lazy'', Obj ''lazy'')]"

definition module_globals :: "globals \<Rightarrow> globals" where
  "module_globals star = map_of imports_before_star ++ star ++ map_of bindings_after_star"

subsection \<open>The backend\<close>

text \<open>
  \<^verbatim>\<open>client.messages.create(system=, model=, messages=, max_tokens=)\<close> is the one
  capability of the backend. A message of the conversation is a role and a content. The
  response carries a list of content blocks, each read through its \<^verbatim>\<open>text\<close>
  attribute, which may be \<^verbatim>\<open>None\<close>. The call may raise; the handle is a function of
  the requests it has received before and of the request, so that a backend may answer the
  same request differently each time. The requests sent so far are part of the state: that
  is how "the backend was not invoked" is observed.
\<close>

record request =
  req_system :: pyval
  req_model :: pyval
  req_messages :: "(string \<times> string) list"
  req_max_tokens :: int

record message =
  content :: "string option list"

type_synonym backend = "request list \<Rightarrow> request \<Rightarrow> error + message"

record LLM =
  llm_client :: backend
  llm_model :: pyval

subsection \<open>The controller: \<^verbatim>\<open>LazyEvaluationClient\<close>\<close>

record LazyEvaluationClient =
  model :: pyval
  client :: backend
  max_tokens :: int
  state :: "LazyState option"
  system :: pyval
  question_history :: "string list"

record session =
  lazy_lm :: LazyEvaluationClient
  sent :: "request list"

text \<open>
  A session is the client object together with the requests its handle has received. The
  client holds its tracker by value: no claim depends on a second reference to it.

  \<^verbatim>\<open>__init__\<close> copies the model and the handle out of \<^verbatim>\<open>llm\<close>, stores \<^verbatim>\<open>max_tokens\<close>
  and \<^verbatim>\<open>state\<close>, reads the global \<^verbatim>\<open>system\<close> and starts an empty question history.
\<close>

definition LazyEvaluationClient_init ::
  "globals \<Rightarrow> LLM \<Rightarrow> int \<Rightarrow> LazyState option \<Rightarrow> error + LazyEvaluationClient" where
  "LazyEvaluationClient_init g llm mt st =
     (case g ''system'' of
        None \<Rightarrow> Inl (NameError ''system'')
      | Some sys \<Rightarrow>
          Inr \<lparr>model = llm_model llm, client = llm_client llm, max_tokens = mt,
               state = st, system = sys, question_history = []\<rparr>)"

definition initalize_problem :: "session \<Rightarrow> string \<Rightarrow> (error + unit) \<times> session" where
  "initalize_problem s p =
     (Inr (), s\<lparr>lazy_lm := (lazy_lm s)\<lparr>state := Some (new_LazyState p [] 0)\<rparr>\<rparr>)"

definition get_current_step :: "session \<Rightarrow> (error + string) \<times> session" where
  "get_current_step s =
     (case state (lazy_lm s) of
        None \<Rightarrow> (Inl (AttributeError ''steps''), s)
      | Some st \<Rightarrow> (getitem (steps st) (current_step st), s))"

text \<open>
  \<^verbatim>\<open>get_next_step\<close>: the guard on \<^verbatim>\<open>self.state\<close>, one user message holding the context,
  the global \<^verbatim>\<open>system\<close> read while the arguments of the call are evaluated, the call,
  the first content block, and then either \<^verbatim>\<open>add_step\<close> with the stripped text, which
  is also returned, or \<^verbatim>\<open>ValueError\<close> when the text is \<^verbatim>\<open>None\<close>.
\<close>

definition get_next_step :: "globals \<Rightarrow> session \<Rightarrow> (error + string) \<times> session" where
  "get_next_step g s =
     (case state (lazy_lm s) of
        None \<Rightarrow>
          (Inl (ValueError ''Problem is not initialized, call initalize_problem first''), s)
      | Some st \<Rightarrow>
          (let messages = [(''user'', get_context st)] in
           case g ''system'' of
             None \<Rightarrow> (Inl (NameError ''system''), s)
           | Some sys \<Rightarrow>
               (let req = \<lparr>req_system = sys, req_model = model (lazy_lm s),
                           req_messages = messages, req_max_tokens = max_tokens (lazy_lm s)\<rparr>;
                    s1 = s\<lparr>sent := sent s @ [req]\<rparr>
                in case client (lazy_lm s) (sent s) req of
                     Inl e \<Rightarrow> (Inl e, s1)
                   | Inr response \<Rightarrow>
                       (case content response of
                          [] \<Rightarrow> (Inl IndexError, s1)
                        | next_step # _ \<Rightarrow>
                            (case next_step of
                               Some t \<Rightarrow>
                                 (Inr (strip t),
                                  s1\<lparr>lazy_lm := (lazy_lm s1)\<lparr>state := Some (add_step st (strip t))\<rparr>\<rparr>)
                             | None \<Rightarrow> (Inl (ValueError ''No next step found''), s1))))))"

text \<open>
  \<^verbatim>\<open>ask_question\<close>: the system instruction of the call is an f-string over
  \<^verbatim>\<open>self.system\<close>, \<^verbatim>\<open>self.state.problem\<close>, the context and
  \<^verbatim>\<open>self.state.steps[self.state.current_step]\<close>, evaluated in this order, and the user
  message is an f-string over the question history and the question. After the call the
  question is appended to the history, then the stripped text of the first content block
  is computed and appended, and computed once more to be returned.
\<close>

definition question_system :: "pyval \<Rightarrow> LazyState \<Rightarrow> string \<Rightarrow> string" where
  "question_system sys st cur =
     [CHR 0x0A] @
     ''        System: '' @ format_val sys @ [CHR 0x0A] @
     ''        Problem: '' @ problem st @ [CHR 0x0A, CHR 0x0A] @
     ''        Context: '' @ get_context st @ [CHR 0x0A] @
     ''        Current step: '' @ cur @ [CHR 0x0A] @
     ''    ''"

definition question_prompt :: "string list \<Rightarrow> string \<Rightarrow> string" where
  "question_prompt history question =
     [CHR 0x0A] @
     ''        Question History: '' @ repr_list history @ [CHR 0x0A] @
     ''        Question: '' @ question @ [CHR 0x0A, CHR 0x0A] @
     ''        Please answer the question without advancing to the next step.'' @ [CHR 0x0A] @
     ''        If you are asked to provide an example for a specific step, please provide an example that is not in the current context.'' @ [CHR 0x0A] @
     ''    ''"

definition ask_question :: "session \<Rightarrow> string \<Rightarrow> (error + string) \<times> session" where
  "ask_question s question =
     (case state (lazy_lm s) of
        None \<Rightarrow> (Inl (AttributeError ''problem''), s)
      | Some st \<Rightarrow>
          (case getitem (steps st) (current_step st) of
             Inl e \<Rightarrow> (Inl e, s)
           | Inr cur \<Rightarrow>
               (let current_state = question_system (system (lazy_lm s)) st cur;
                    prompt = question_prompt (question_history (lazy_lm s)) question;
                    req = \<lparr>req_system = Str current_state, req_model = model (lazy_lm s),
                           req_messages = [(''user'', prompt)],
                           req_max_tokens = max_tokens (lazy_lm s)\<rparr>;
                    s1 = s\<lparr>sent := sent s @ [req]\<rparr>
                in case client (lazy_lm s) (sent s) req of
                     Inl e \<Rightarrow> (Inl e, s1)
                   | Inr response \<Rightarrow>
                       (let s2 = s1\<lparr>lazy_lm := (lazy_lm s1)
                                  \<lparr>question_history := question_history (lazy_lm s1) @ [question]\<rparr>\<rparr>
                        in case content response of
                             [] \<Rightarrow> (Inl IndexError, s2)
                           | block # _ \<Rightarrow>
                               (case block of
                                  None \<Rightarrow> (Inl (AttributeError ''strip''), s2)
                                | Some t \<Rightarrow>
                                    (Inr (strip t),
                                     s2\<lparr>lazy_lm := (lazy_lm s2)
                                       \<lparr>question_history :=
                                          question_history (lazy_lm s2) @ [strip t]\<rparr>\<rparr>))))))"

text \<open>
  \<^verbatim>\<open>lazy\<close>, patched onto the backend client: a fresh tracker, an \<^verbatim>\<open>LLM\<close> holding the
  handle and the global \<^verbatim>\<open>model\<close>, and a client with the default \<^verbatim>\<open>max_tokens\<close>.
\<close>

definition lazy :: "globals \<Rightarrow> backend \<Rightarrow> string \<Rightarrow> error + LazyEvaluationClient" where
  "lazy g handle p =
     (let st = new_LazyState p [] 0 in
      case g ''model'' of
        None \<Rightarrow> Inl (NameError ''model'')
      | Some m \<Rightarrow>
          LazyEvaluationClient_init g \<lparr>llm_client = handle, llm_model = m\<rparr> 100 (Some st))"

text \<open>
  A caller drives one client with any interleaving of the two requests, as the
  notebook's loop does with its commands \<^verbatim>\<open>next\<close> and \<^verbatim>\<open>question\<close>; an exception
  leaves the state as it was when it was raised.
\<close>

datatype command = Next | Question string

fun step :: "globals \<Rightarrow> session \<Rightarrow> command \<Rightarrow> session" where
  "step g s Next = snd (get_next_step g s)"
| "step g s (Question q) = snd (ask_question s q)"

definition run :: "globals \<Rightarrow> session \<Rightarrow> command list \<Rightarrow> session" where
  "run g s cmds = foldl (step g) s cmds"

subsection \<open>The question log as pairs\<close>

text \<open>
  \<^verbatim>\<open>question_history\<close> is one flat list of texts: a question, its answer, the next
  question, its answer. \<open>log_of_pairs\<close> gives the flat list that stands for a sequence
  of (question, answer) pairs.
\<close>

fun log_of_pairs :: "(string \<times> string) list \<Rightarrow> string list" where
  "log_of_pairs [] = []"
| "log_of_pairs ((q, a) # ps) = q # a # log_of_pairs ps"

subsection \<open>Concrete sessions\<close>

text \<open>
  A backend that answers from a script, the \<open>n\<close>-th call with the \<open>n\<close>-th entry, and
  fails once the script is used up; a namespace like the one of the notebook's kernel,
  where \<^verbatim>\<open>model\<close> is bound by a cell that is not exported and \<^verbatim>\<open>system\<close> is bound
  as well (the recorded outputs of \<^verbatim>\<open>get_next_step\<close> need it; here it holds the
  exported instruction text); and a client over both.
\<close>

definition scripted :: "(error + message) list \<Rightarrow> backend" where
  "scripted rs h r =
     (if length h < length rs then rs ! length h else Inl (BackendFault ''no response left''))"

definition text_reply :: "string \<Rightarrow> error + message" where
  "text_reply t = Inr \<lparr>content = [Some t]\<rparr>"

definition notebook_globals :: globals where
  "notebook_globals =
     module_globals Map.empty
       ++ [''system'' \<mapsto> Str lazy_system_p, ''model'' \<mapsto> Str ''claude-3-5-sonnet@20240620'']"

definition demo_session :: "LazyState option \<Rightarrow> (error + message) list \<Rightarrow> session" where
  "demo_session st rs =
     \<lparr>lazy_lm = \<lparr>model = Str ''claude-3-5-sonnet@20240620'', client = scripted rs,
                 max_tokens = 100, state = st, system = Str lazy_system_p,
                 question_history = []\<rparr>,
      sent = []\<rparr>"

definition done_session :: session where
  "done_session =
     demo_session (Some (new_LazyState ''2+2?'' [] 0))
       [text_reply ''PROBLEM DONE'', text_reply ''Check the result'']"

definition sentinel_session :: session where
  "sentinel_session =
     demo_session (Some (new_LazyState ''2+2?'' [] 0)) [text_reply '' PROBLEM DONE '']"

definition uninitialized_session :: session where
  "uninitialized_session = demo_session None [text_reply ''4'']"

definition question_session :: session where
  "question_session =
     demo_session (Some (add_step (new_LazyState ''2+2?'' [] 0) ''PROBLEM DONE''))
       [text_reply '' Because 2 and 2 make 4. '']"

definition done_again_session :: session where
  "done_again_session =
     demo_session (Some (new_LazyState ''2+2?'' [] 0))
       [text_reply ''PROBLEM DONE'', text_reply ''Check the result'',
        text_reply ''PROBLEM DONE'']"

definition dangling_session :: session where
  "dangling_session =
     demo_session (Some (new_LazyState ''2+2?'' [] 0)) [Inr \<lparr>content = []\<rparr>, text_reply ''x'']"

section \<open>Facts about the operations\<close>

lemma log_of_pairs_append: "log_of_pairs (ps @ qs) = log_of_pairs ps @ log_of_pairs qs"
  by (induction ps rule: log_of_pairs.induct) simp_all

lemmas demo_defs = demo_session_def scripted_def text_reply_def notebook_globals_def
  new_LazyState_def post_init_def add_step_def strip_def isspace_def

lemma notebook_system: "notebook_globals ''system'' = Some (Str lazy_system_p)"
  by (simp add: notebook_globals_def)

lemma get_next_step_text:
  assumes "state (lazy_lm s) = Some st" and "g ''system'' = Some sys"
    and "client (lazy_lm s) (sent s)
           \<lparr>req_system = sys, req_model = model (lazy_lm s),
            req_messages = [(''user'', get_context st)],
            req_max_tokens = max_tokens (lazy_lm s)\<rparr> = Inr resp"
    and "content resp = Some t # rest"
  shows "get_next_step g s =
           (Inr (strip t),
            s\<lparr>lazy_lm := (lazy_lm s)\<lparr>state := Some (add_step st (strip t))\<rparr>,
              sent := sent s @ [\<lparr>req_system = sys, req_model = model (lazy_lm s),
                                req_messages = [(''user'', get_context st)],
                                req_max_tokens = max_tokens (lazy_lm s)\<rparr>]\<rparr>)"
  using assms by (simp add: get_next_step_def Let_def)

lemma get_next_step_Inr_cases:
  assumes "get_next_step g s = (Inr a, s')"
  obtains st sys resp t rest where
    "state (lazy_lm s) = Some st" "g ''system'' = Some sys"
    "client (lazy_lm s) (sent s)
           \<lparr>req_system = sys, req_model = model (lazy_lm s),
            req_messages = [(''user'', get_context st)],
            req_max_tokens = max_tokens (lazy_lm s)\<rparr> = Inr resp"
    "content resp = Some t # rest" "a = strip t"
  using assms
  by (auto simp: get_next_step_def Let_def split: option.splits sum.splits list.splits)

lemma get_next_step_history:
  "question_history (lazy_lm (snd (get_next_step g s))) = question_history (lazy_lm s)"
  by (auto simp: get_next_step_def Let_def split: option.splits sum.splits list.splits)

lemma ask_question_frame:
  "\<exists>added. lazy_lm (snd (ask_question s q)) =
     (lazy_lm s)\<lparr>question_history := question_history (lazy_lm s) @ added\<rparr>"
  by (auto simp: ask_question_def Let_def split: option.splits sum.splits list.splits
      intro: exI[of _ "[]"])

lemma ask_question_state: "state (lazy_lm (snd (ask_question s q))) = state (lazy_lm s)"
  using ask_question_frame [of s q] by auto

lemma ask_question_Inr_cases:
  assumes "ask_question s q = (Inr a, s')"
  obtains st cur resp t rest where
    "state (lazy_lm s) = Some st" "getitem (steps st) (current_step st) = Inr cur"
    "client (lazy_lm s) (sent s)
       \<lparr>req_system = Str (question_system (system (lazy_lm s)) st cur),
        req_model = model (lazy_lm s),
        req_messages = [(''user'', question_prompt (question_history (lazy_lm s)) q)],
        req_max_tokens = max_tokens (lazy_lm s)\<rparr> = Inr resp"
    "content resp = Some t # rest" "a = strip t"
    "question_history (lazy_lm s') = question_history (lazy_lm s) @ [q, a]"
  using assms
  by (auto simp: ask_question_def Let_def split: option.splits sum.splits list.splits)

lemma run_snoc: "run g s (cmds @ [c]) = step g (run g s cmds) c"
  by (simp add: run_def)

lemma step_history_prefix:
  "prefix (question_history (lazy_lm s)) (question_history (lazy_lm (step g s c)))"
proof (cases c)
  case Next
  then show ?thesis by (simp add: get_next_step_history)
next
  case (Question q)
  from ask_question_frame [of s q] obtain added where
    "lazy_lm (snd (ask_question s q)) =
       (lazy_lm s)\<lparr>question_history := question_history (lazy_lm s) @ added\<rparr>" ..
  with Question show ?thesis by simp
qed

lemma run_history_prefix:
  "prefix (question_history (lazy_lm s)) (question_history (lazy_lm (run g s cmds)))"
proof (induction cmds rule: rev_induct)
  case Nil
  then show ?case by (simp add: run_def)
next
  case (snoc c cmds)
  have "prefix (question_history (lazy_lm (run g s cmds)))
          (question_history (lazy_lm (run g s (cmds @ [c]))))"
    by (simp only: run_snoc step_history_prefix)
  with snoc show ?case by (rule prefix_order.trans)
qed

lemma get_next_step_bound:
  assumes "state (lazy_lm s) = Some st" and "g ''system'' = Some sys"
  shows "get_next_step g s =
     (let req = \<lparr>req_system = sys, req_model = model (lazy_lm s),
                 req_messages = [(''user'', get_context st)],
                 req_max_tokens = max_tokens (lazy_lm s)\<rparr>;
          s3 = s\<lparr>sent := sent s @ [req]\<rparr>
      in case client (lazy_lm s) (sent s) req of
           Inl e \<Rightarrow> (Inl e, s3)
         | Inr resp \<Rightarrow>
             (case content resp of
                [] \<Rightarrow> (Inl IndexError, s3)
              | None # _ \<Rightarrow> (Inl (ValueError ''No next step found''), s3)
              | Some t # _ \<Rightarrow>
                  (Inr (strip t),
                   s3\<lparr>lazy_lm := (lazy_lm s3)\<lparr>state := Some (add_step st (strip t))\<rparr>\<rparr>)))"
  using assms
  by (simp add: get_next_step_def Let_def split: sum.splits list.splits option.splits)

lemma get_next_step_state_bound:
  assumes "state (lazy_lm s) = Some st"
  shows "\<exists>st'. state (lazy_lm (snd (get_next_step g s))) = Some st'
           \<and> prefix (steps st) (steps st')"
  using assms
  by (auto simp: get_next_step_def Let_def add_step_def
      split: sum.splits list.splits option.splits)

lemma step_state_bound:
  assumes "state (lazy_lm s) = Some st"
  shows "\<exists>st'. state (lazy_lm (step g s c)) = Some st' \<and> prefix (steps st) (steps st')"
proof (cases c)
  case Next
  with get_next_step_state_bound [OF assms, of g] show ?thesis by simp
next
  case (Question q)
  with assms show ?thesis by (simp add: ask_question_state)
qed

lemma run_state_bound:
  assumes "state (lazy_lm s) = Some st"
  shows "\<exists>st'. state (lazy_lm (run g s cmds)) = Some st' \<and> prefix (steps st) (steps st')"
proof (induction cmds rule: rev_induct)
  case Nil
  with assms show ?case by (simp add: run_def)
next
  case (snoc c cmds)
  then obtain st1 where st1: "state (lazy_lm (run g s cmds)) = Some st1"
    and p1: "prefix (steps st) (steps st1)" by blast
  from step_state_bound [OF st1, of g c] obtain st2 where
    "state (lazy_lm (step g (run g s cmds) c)) = Some st2" "prefix (steps st1) (steps st2)"
    by blast
  with p1 show ?case
    by (auto simp: run_snoc intro: prefix_order.trans)
qed

lemma length_log_of_pairs: "even (length (log_of_pairs ps))"
  by (induction ps rule: log_of_pairs.induct) simp_all

lemma module_globals_system: "module_globals star ''system'' = star ''system''"
  by (simp add: module_globals_def imports_before_star_def bindings_after_star_def
      map_add_def split: option.splits)

lemma module_globals_model: "module_globals star ''model'' = star ''model''"
  by (simp add: module_globals_def imports_before_star_def bindings_after_star_def
      map_add_def split: option.splits)

lemma module_globals_lazy_system_p:
  "module_globals star ''lazy_system_p'' = Some (Str lazy_system_p)"
  by (simp add: module_globals_def bindings_after_star_def)

section \<open>Facts about the rendering of a list of texts\<close>

text \<open>
  The \<^verbatim>\<open>repr\<close> of a text is a prefix code: every character is written as itself or as
  a backslash sequence that no other character shares, and the closing quote cannot start
  such a sequence. So the rendering of a list of texts can be read back, and it contains
  no newline.
\<close>

lemma hexdigits_inj:
  assumes "i < 16" "j < 16" "hexdigits ! i = hexdigits ! j"
  shows "i = j"
proof -
  have "distinct hexdigits" by (simp add: hexdigits_def)
  moreover have "length hexdigits = 16" by (simp add: hexdigits_def)
  ultimately show ?thesis using assms by (simp add: nth_eq_iff_index_eq)
qed

lemma hex2_inj:
  assumes "n < 256" "m < 256" "hex2 n = hex2 m"
  shows "n = m"
proof -
  from assms(3) have "(n div 16) mod 16 = (m div 16) mod 16" "n mod 16 = m mod 16"
    by (auto simp: hex2_def intro!: hexdigits_inj)
  moreover from assms(1,2) have "(n div 16) mod 16 = n div 16" "(m div 16) mod 16 = m div 16"
    by simp_all
  ultimately show ?thesis by (metis div_mult_mod_eq)
qed

lemma of_char_less: "(of_char c :: nat) < 256"
  by (simp add: of_char_def) 

lemma hex2_char_inj: "hex2 (of_char c) = hex2 (of_char d) \<Longrightarrow> c = d"
  using hex2_inj [OF of_char_less of_char_less] by (metis of_char_eq_iff)

lemma hex2_append_eq: "hex2 n @ r1 = hex2 m @ r2 \<longleftrightarrow> hex2 n = hex2 m \<and> r1 = r2"
  by (auto simp: hex2_def)

lemma repr_char_prefix_code:
  assumes "q = CHR 0x27 \<or> q = CHR 0x22"
    and "repr_char q c @ r1 = repr_char q d @ r2"
  shows "c = d \<and> r1 = r2"
  using assms
  by (auto simp: repr_char_def hex2_append_eq split: if_splits dest: hex2_char_inj)

lemma repr_char_not_quote:
  assumes "q = CHR 0x27 \<or> q = CHR 0x22"
  shows "\<exists>a as. repr_char q c = a # as \<and> a \<noteq> q"
  using assms by (auto simp: repr_char_def)

lemma repr_body_inj:
  assumes "q = CHR 0x27 \<or> q = CHR 0x22"
    and "concat (map (repr_char q) xs) @ q # r1 = concat (map (repr_char q) ys) @ q # r2"
  shows "xs = ys \<and> r1 = r2"
  using assms(2)
proof (induction xs arbitrary: ys)
  case Nil
  show ?case
  proof (cases ys)
    case Nil
    with Nil.prems show ?thesis by simp
  next
    case (Cons d ds)
    from repr_char_not_quote [OF assms(1), of d] obtain a as where
      "repr_char q d = a # as" "a \<noteq> q" by blast
    with Nil.prems Cons show ?thesis by simp
  qed
next
  case (Cons c cs)
  show ?case
  proof (cases ys)
    case Nil
    from repr_char_not_quote [OF assms(1), of c] obtain a as where
      "repr_char q c = a # as" "a \<noteq> q" by blast
    with Cons.prems Nil show ?thesis by simp
  next
    case (Cons d ds)
    with Cons.prems have
      "repr_char q c @ (concat (map (repr_char q) cs) @ q # r1)
         = repr_char q d @ (concat (map (repr_char q) ds) @ q # r2)"
      by simp
    from repr_char_prefix_code [OF assms(1) this]
    have "c = d" and "concat (map (repr_char q) cs) @ q # r1 = concat (map (repr_char q) ds) @ q # r2"
      by simp_all
    with Cons.IH [of ds] Cons show ?thesis by simp
  qed
qed

lemma repr_quote_cases: "repr_quote s = CHR 0x27 \<or> repr_quote s = CHR 0x22"
  by (simp add: repr_quote_def)

lemma repr_str_inj:
  assumes "repr_str s @ r1 = repr_str t @ r2"
  shows "s = t \<and> r1 = r2"
proof -
  from assms have q: "repr_quote t = repr_quote s"
    by (simp add: repr_str_def Let_def)
  with assms have
    "concat (map (repr_char (repr_quote s)) s) @ repr_quote s # r1
       = concat (map (repr_char (repr_quote s)) t) @ repr_quote s # r2"
    by (simp add: repr_str_def Let_def)
  from repr_body_inj [OF repr_quote_cases this] show ?thesis .
qed

lemma repr_str_head: "\<exists>as. repr_str s = CHR 0x27 # as \<or> repr_str s = CHR 0x22 # as"
  using repr_quote_cases [of s] by (auto simp: repr_str_def Let_def)

lemma join_Cons: "join sep (x # xs) = x @ (if xs = [] then [] else sep @ join sep xs)"
  by (cases xs) simp_all

lemma repr_items_inj:
  assumes "join '', '' (map repr_str xs) @ CHR '']'' # r1
             = join '', '' (map repr_str ys) @ CHR '']'' # r2"
  shows "xs = ys \<and> r1 = r2"
  using assms
proof (induction xs arbitrary: ys)
  case Nil
  show ?case
  proof (cases ys)
    case Nil
    with Nil.prems show ?thesis by simp
  next
    case (Cons y ys')
    from repr_str_head [of y] Nil.prems Cons show ?thesis
      by (auto simp: join_Cons)
  qed
next
  case (Cons x xs')
  show ?case
  proof (cases ys)
    case Nil
    from repr_str_head [of x] Cons.prems Nil show ?thesis
      by (auto simp: join_Cons)
  next
    case (Cons y ys')
    let ?tl = "\<lambda>zs r. (if zs = [] then [] else '', '' @ join '', '' (map repr_str zs)) @ CHR '']'' # r"
    from Cons.prems Cons have "repr_str x @ ?tl xs' r1 = repr_str y @ ?tl ys' r2"
      by (simp add: join_Cons)
    from repr_str_inj [OF this] have xy: "x = y" and tl: "?tl xs' r1 = ?tl ys' r2"
      by simp_all
    show ?thesis
    proof (cases "xs' = []")
      case True
      with tl have "ys' = [] \<and> r1 = r2" by (auto split: if_splits)
      with True xy Cons show ?thesis by simp
    next
      case False
      with tl have ne: "ys' \<noteq> []" by (auto split: if_splits)
      with False tl have
        "join '', '' (map repr_str xs') @ CHR '']'' # r1
           = join '', '' (map repr_str ys') @ CHR '']'' # r2"
        by simp
      from Cons.IH [OF this] xy Cons show ?thesis by simp
    qed
  qed
qed

lemma repr_list_inj: "repr_list xs = repr_list ys \<Longrightarrow> xs = ys"
  using repr_items_inj [of xs "[]" ys "[]"] by (simp add: repr_list_def)

lemma hex2_no_newline: "CHR 0x0A \<notin> set (hex2 n)"
proof -
  have "CHR 0x0A \<notin> set hexdigits" by (simp add: hexdigits_def)
  moreover have "(n div 16) mod 16 < length hexdigits" "n mod 16 < length hexdigits"
    by (simp_all add: hexdigits_def)
  ultimately show ?thesis
    by (metis hex2_def nth_mem set_ConsD empty_iff empty_set)
qed

lemma repr_char_no_newline:
  assumes "q = CHR 0x27 \<or> q = CHR 0x22"
  shows "CHR 0x0A \<notin> set (repr_char q c)"
  using assms hex2_no_newline [of "of_char c"]
  by (auto simp: repr_char_def isprintable_def Let_def)

lemma repr_str_no_newline: "CHR 0x0A \<notin> set (repr_str s)"
  using repr_quote_cases [of s] repr_char_no_newline [OF repr_quote_cases, of s]
  by (auto simp: repr_str_def Let_def)

lemma join_no_newline:
  "\<forall>x \<in> set xs. CHR 0x0A \<notin> set x \<Longrightarrow> CHR 0x0A \<notin> set (join '', '' xs)"
  by (induction "'', ''" xs rule: join.induct) auto

lemma repr_list_no_newline: "CHR 0x0A \<notin> set (repr_list xs)"
  using join_no_newline [of "map repr_str xs"]
  by (simp add: repr_list_def repr_str_no_newline)

lemma first_occurrence_split:
  assumes "x \<notin> set xs" "x \<notin> set xs'" "xs @ x # ys = xs' @ x # ys'"
  shows "xs = xs' \<and> ys = ys'"
  using assms
proof (induction xs arbitrary: xs')
  case Nil
  then show ?case by (cases xs') auto
next
  case (Cons a as)
  then show ?case by (cases xs') auto
qed

lemma get_context_inj:
  assumes "get_context s = get_context t"
  shows "problem s = problem t \<and> steps s = steps t"
proof -
  let ?a = "\<lambda>u. rev ('' Steps so far: '' @ repr_list (steps u))"
  let ?b = "\<lambda>u. rev (''Problem: '' @ problem u @ '' '')"
  have nl: "CHR 0x0A \<notin> set (?a u)" for u
    using repr_list_no_newline [of "steps u"] by simp
  from assms have "rev (get_context s) = rev (get_context t)" by simp
  then have "?a s @ CHR 0x0A # ?b s = ?a t @ CHR 0x0A # ?b t"
    by (simp add: get_context_def)
  with nl [of s] nl [of t] have "?a s = ?a t \<and> ?b s = ?b t"
    by (rule first_occurrence_split)
  then show ?thesis by (auto dest: repr_list_inj)
qed

section \<open>Properties of the tracker\<close>

lemma foldl_add_step_steps: "steps (foldl add_step st xs) = steps st @ xs"
  by (induction xs arbitrary: st) (simp_all add: add_step_def)

lemma foldl_add_step_current:
  "current_step (foldl add_step st xs) = current_step st + int (length xs)"
  by (induction xs arbitrary: st) (simp_all add: add_step_def)

lemma foldl_add_step_problem: "problem (foldl add_step st xs) = problem st"
  by (induction xs arbitrary: st) (simp_all add: add_step_def)

lemma new_LazyState_default:
  "new_LazyState p [] 0 = \<lparr>problem = p, steps = [p], current_step = 0\<rparr>"
  by (simp add: new_LazyState_def post_init_def)

text \<open>
  C7. For a non-empty problem \<open>p\<close>, \<^verbatim>\<open>LazyState(problem=p)\<close> returns a tracker with
  \<open>steps = [p]\<close> and \<open>current_step = 0\<close>; each \<^verbatim>\<open>add_step\<close> increases \<open>current_step\<close> by
  exactly 1, on any tracker; and after any sequence \<open>xs\<close> of appended steps
  \<open>current_step\<close> is the number of appended steps and \<open>steps[0]\<close> is still \<open>p\<close>.
\<close>

theorem append_monotonicity:
  "p \<noteq> [] \<Longrightarrow>
     create p = Inr (new_LazyState p [] 0)
     \<and> steps (new_LazyState p [] 0) = [p]
     \<and> current_step (new_LazyState p [] 0) = 0
     \<and> current_step (add_step st x) = current_step st + 1
     \<and> current_step (foldl add_step (new_LazyState p [] 0) xs) = int (length xs)
     \<and> getitem (steps (foldl add_step (new_LazyState p [] 0) xs)) 0 = Inr p"
  by (simp add: create_def new_LazyState_default foldl_add_step_current
      foldl_add_step_steps getitem_def add_step_def)

theorem append_monotonicity_witness:
  "''2+2?'' \<noteq> []
   \<and> create ''2+2?'' = Inr (new_LazyState ''2+2?'' [] 0)
   \<and> current_step (add_step (new_LazyState ''2+2?'' [] 0) ''Add 2 and 2'') = 1
   \<and> current_step (foldl add_step (new_LazyState ''2+2?'' [] 0) [''Add 2 and 2'', ''4'']) = 2
   \<and> getitem (steps (foldl add_step (new_LazyState ''2+2?'' [] 0) [''Add 2 and 2'', ''4''])) 0
       = Inr ''2+2?''"
proof -
  have ne: "''2+2?'' \<noteq> []" by simp
  from append_monotonicity [OF ne, of "new_LazyState ''2+2?'' [] 0" "''Add 2 and 2''"
      "[''Add 2 and 2'', ''4'']"]
  show ?thesis by simp
qed

text \<open>
  C8. For a non-empty problem \<open>p\<close> and any sequence \<open>xs\<close> of appended steps, \<^verbatim>\<open>refresh\<close>
  gives back exactly the tracker that \<^verbatim>\<open>LazyState(problem=p)\<close> returns: \<open>steps = [p]\<close>
  and \<open>current_step = 0\<close>.
\<close>

theorem reset_restores_create:
  "p \<noteq> [] \<Longrightarrow>
     create p = Inr (refresh (foldl add_step (new_LazyState p [] 0) xs))
     \<and> refresh (foldl add_step (new_LazyState p [] 0) xs)
         = \<lparr>problem = p, steps = [p], current_step = 0\<rparr>"
proof -
  have "refresh (foldl add_step (new_LazyState p [] 0) xs)
          = \<lparr>problem = p, steps = [p], current_step = 0\<rparr>"
    by (rule LazyState.equality)
       (simp_all add: refresh_def foldl_add_step_problem new_LazyState_default)
  then show ?thesis
    by (simp add: create_def new_LazyState_default)
qed

theorem reset_restores_create_witness:
  "''2+2?'' \<noteq> []
   \<and> create ''2+2?'' = Inr (refresh (foldl add_step (new_LazyState ''2+2?'' [] 0) [''Add 2 and 2'']))
   \<and> refresh (foldl add_step (new_LazyState ''2+2?'' [] 0) [''Add 2 and 2''])
       = \<lparr>problem = ''2+2?'', steps = [''2+2?''], current_step = 0\<rparr>"
proof -
  have ne: "''2+2?'' \<noteq> []" by simp
  from reset_restores_create [OF ne, of "[''Add 2 and 2'']"]
  show ?thesis by simp
qed

section \<open>Properties of the controller\<close>

subsection \<open>Calls after the backend has answered \<^verbatim>\<open>PROBLEM DONE\<close>\<close>

text \<open>
  C1, as stated: once \<^verbatim>\<open>get_next_step\<close> has returned \<^verbatim>\<open>PROBLEM DONE\<close>, every later call
  returns it again, sends nothing to the backend and leaves \<open>steps\<close> and \<open>current_step\<close>
  alone. The client keeps no such state. With a backend that answers \<^verbatim>\<open>PROBLEM DONE\<close>
  and then \<^verbatim>\<open>Check the result\<close>, the first call returns the sentinel and has already
  appended it; the second call sends a second request, returns the other text and
  appends it too.
\<close>

theorem terminal_idempotence_counterexample:
  "fst (get_next_step notebook_globals done_session) = Inr ''PROBLEM DONE''
   \<and> fst (get_next_step notebook_globals (snd (get_next_step notebook_globals done_session)))
       = Inr ''Check the result''
   \<and> length (sent (snd (get_next_step notebook_globals done_session))) = 1
   \<and> length (sent (snd (get_next_step notebook_globals
         (snd (get_next_step notebook_globals done_session))))) = 2
   \<and> state (lazy_lm (snd (get_next_step notebook_globals done_session)))
       = Some \<lparr>problem = ''2+2?'', steps = [''2+2?'', ''PROBLEM DONE''], current_step = 1\<rparr>
   \<and> state (lazy_lm (snd (get_next_step notebook_globals
         (snd (get_next_step notebook_globals done_session)))))
       = Some \<lparr>problem = ''2+2?'',
            steps = [''2+2?'', ''PROBLEM DONE'', ''Check the result''], current_step = 2\<rparr>"
  by (simp add: get_next_step_def done_session_def demo_defs notebook_system Let_def)

text \<open>
  C1, amended: no call that follows one that returned \<^verbatim>\<open>PROBLEM DONE\<close> is special.
  After any further interleaving \<open>cmds\<close> of \<^verbatim>\<open>get_next_step\<close> and \<^verbatim>\<open>ask_question\<close>
  calls the tracker is still bound and still holds the steps it had, the sentinel among
  them; and the next \<^verbatim>\<open>get_next_step\<close> sends exactly one more request, whose user
  message is the context of the tracker, and does what the answer says: it raises when
  the backend raises, when the answer has no content block or when the text of its first
  block is \<^verbatim>\<open>None\<close>, and otherwise it returns the stripped text and has appended it
  to \<open>steps\<close> and added 1 to \<open>current_step\<close>. So it returns \<^verbatim>\<open>PROBLEM DONE\<close> again
  exactly when the backend answers with a text that trims to it.
\<close>

theorem next_step_after_done:
  assumes "get_next_step g s = (Inr ''PROBLEM DONE'', s1)"
  shows "\<exists>st1 st2 sys.
           state (lazy_lm s1) = Some st1 \<and> last (steps st1) = ''PROBLEM DONE''
           \<and> g ''system'' = Some sys
           \<and> state (lazy_lm (run g s1 cmds)) = Some st2
           \<and> prefix (steps st1) (steps st2)
           \<and> get_next_step g (run g s1 cmds) =
               (let s2 = run g s1 cmds;
                    req = \<lparr>req_system = sys, req_model = model (lazy_lm s2),
                           req_messages = [(''user'', get_context st2)],
                           req_max_tokens = max_tokens (lazy_lm s2)\<rparr>;
                    s3 = s2\<lparr>sent := sent s2 @ [req]\<rparr>
                in case client (lazy_lm s2) (sent s2) req of
                     Inl e \<Rightarrow> (Inl e, s3)
                   | Inr resp \<Rightarrow>
                       (case content resp of
                          [] \<Rightarrow> (Inl IndexError, s3)
                        | None # _ \<Rightarrow> (Inl (ValueError ''No next step found''), s3)
                        | Some t # _ \<Rightarrow>
                            (Inr (strip t),
                             s3\<lparr>lazy_lm := (lazy_lm s3)
                                  \<lparr>state := Some (add_step st2 (strip t))\<rparr>\<rparr>)))
           \<and> (fst (get_next_step g (run g s1 cmds)) = Inr ''PROBLEM DONE'' \<longleftrightarrow>
                (\<exists>resp t rest.
                   client (lazy_lm (run g s1 cmds)) (sent (run g s1 cmds))
                     \<lparr>req_system = sys, req_model = model (lazy_lm (run g s1 cmds)),
                      req_messages = [(''user'', get_context st2)],
                      req_max_tokens = max_tokens (lazy_lm (run g s1 cmds))\<rparr> = Inr resp
                   \<and> content resp = Some t # rest \<and> strip t = ''PROBLEM DONE''))
           \<and> steps (add_step st2 a) = steps st2 @ [a]
           \<and> current_step (add_step st2 a) = current_step st2 + 1"
proof -
  from assms obtain st sys resp t rest where
    st: "state (lazy_lm s) = Some st" and sys: "g ''system'' = Some sys"
    and call: "client (lazy_lm s) (sent s)
           \<lparr>req_system = sys, req_model = model (lazy_lm s),
            req_messages = [(''user'', get_context st)],
            req_max_tokens = max_tokens (lazy_lm s)\<rparr> = Inr resp"
    and resp: "content resp = Some t # rest" and t: "''PROBLEM DONE'' = strip t"
    by (rule get_next_step_Inr_cases)
  from st sys call resp assms t
  have st1: "state (lazy_lm s1) = Some (add_step st ''PROBLEM DONE'')"
    by (auto simp: get_next_step_text [where g = g and s = s])
  have last: "last (steps (add_step st ''PROBLEM DONE'')) = ''PROBLEM DONE''"
    by (simp add: add_step_def)
  from run_state_bound [OF st1, of g cmds] obtain st2 where
    st2: "state (lazy_lm (run g s1 cmds)) = Some st2"
    and pre: "prefix (steps (add_step st ''PROBLEM DONE'')) (steps st2)"
    by blast
  note eq = get_next_step_bound [where g = g and s = "run g s1 cmds", OF st2 sys]
  have iff: "fst (get_next_step g (run g s1 cmds)) = Inr ''PROBLEM DONE'' \<longleftrightarrow>
                (\<exists>resp t rest.
                   client (lazy_lm (run g s1 cmds)) (sent (run g s1 cmds))
                     \<lparr>req_system = sys, req_model = model (lazy_lm (run g s1 cmds)),
                      req_messages = [(''user'', get_context st2)],
                      req_max_tokens = max_tokens (lazy_lm (run g s1 cmds))\<rparr> = Inr resp
                   \<and> content resp = Some t # rest \<and> strip t = ''PROBLEM DONE'')"
    unfolding eq by (auto simp: Let_def split: sum.splits list.splits option.splits)
  have add: "steps (add_step st2 a) = steps st2 @ [a]"
    "current_step (add_step st2 a) = current_step st2 + 1"
    by (simp_all add: add_step_def)
  from st1 last sys st2 pre eq iff add show ?thesis
    by (intro exI [of _ "add_step st ''PROBLEM DONE''"] exI [of _ st2] exI [of _ sys])
       (simp only: Let_def simp_thms)
qed

theorem next_step_after_done_witness:
  "get_next_step notebook_globals done_again_session
     = (Inr ''PROBLEM DONE'', snd (get_next_step notebook_globals done_again_session))
   \<and> fst (get_next_step notebook_globals (snd (get_next_step notebook_globals done_again_session)))
       = Inr ''Check the result''
   \<and> map_option steps (state (lazy_lm (run notebook_globals
         (snd (get_next_step notebook_globals done_again_session)) [Next])))
       = Some [''2+2?'', ''PROBLEM DONE'', ''Check the result'']
   \<and> fst (get_next_step notebook_globals (run notebook_globals
         (snd (get_next_step notebook_globals done_again_session)) [Next]))
       = Inr ''PROBLEM DONE''
   \<and> length (sent (snd (get_next_step notebook_globals (run notebook_globals
         (snd (get_next_step notebook_globals done_again_session)) [Next])))) = 3
   \<and> map_option steps (state (lazy_lm (snd (get_next_step notebook_globals (run notebook_globals
         (snd (get_next_step notebook_globals done_again_session)) [Next])))))
       = Some [''2+2?'', ''PROBLEM DONE'', ''Check the result'', ''PROBLEM DONE'']"
proof -
  let ?g = notebook_globals
  let ?s1 = "snd (get_next_step ?g done_again_session)"
  let ?s2 = "run ?g ?s1 [Next]"
  have first: "get_next_step ?g done_again_session = (Inr ''PROBLEM DONE'', ?s1)"
    by (simp add: get_next_step_def done_again_session_def demo_defs notebook_system Let_def)
  have second: "fst (get_next_step ?g ?s1) = Inr ''Check the result''"
    by (simp add: get_next_step_def done_again_session_def demo_defs notebook_system Let_def)
  have st2: "state (lazy_lm ?s2) = Some \<lparr>problem = ''2+2?'',
      steps = [''2+2?'', ''PROBLEM DONE'', ''Check the result''], current_step = 2\<rparr>"
    by (simp add: run_def get_next_step_def done_again_session_def demo_defs notebook_system
        Let_def)
  have cl: "client (lazy_lm ?s2) = scripted [text_reply ''PROBLEM DONE'',
      text_reply ''Check the result'', text_reply ''PROBLEM DONE'']"
    by (simp add: run_def get_next_step_def done_again_session_def demo_session_def
        text_reply_def scripted_def notebook_system Let_def)
  have len: "length (sent ?s2) = 2"
    by (simp add: run_def get_next_step_def done_again_session_def demo_session_def
        text_reply_def scripted_def notebook_system Let_def)
  from next_step_after_done [where g = ?g and s = done_again_session and cmds = "[Next]",
      OF first]
  obtain st1 st2 sys where
    b: "state (lazy_lm ?s2) = Some st2" and sys: "?g ''system'' = Some sys"
    and eq: "get_next_step ?g ?s2 =
               (let s2 = ?s2;
                    req = \<lparr>req_system = sys, req_model = model (lazy_lm s2),
                           req_messages = [(''user'', get_context st2)],
                           req_max_tokens = max_tokens (lazy_lm s2)\<rparr>;
                    s3 = s2\<lparr>sent := sent s2 @ [req]\<rparr>
                in case client (lazy_lm s2) (sent s2) req of
                     Inl e \<Rightarrow> (Inl e, s3)
                   | Inr resp \<Rightarrow>
                       (case content resp of
                          [] \<Rightarrow> (Inl IndexError, s3)
                        | None # _ \<Rightarrow> (Inl (ValueError ''No next step found''), s3)
                        | Some t # _ \<Rightarrow>
                            (Inr (strip t),
                             s3\<lparr>lazy_lm := (lazy_lm s3)
                                  \<lparr>state := Some (add_step st2 (strip t))\<rparr>\<rparr>)))"
    by blast
  from b st2 have v: "st2 = \<lparr>problem = ''2+2?'',
      steps = [''2+2?'', ''PROBLEM DONE'', ''Check the result''], current_step = 2\<rparr>"
    by simp
  from eq cl len
  have third: "fst (get_next_step ?g ?s2) = Inr ''PROBLEM DONE''"
    and sent3: "length (sent (snd (get_next_step ?g ?s2))) = 3"
    and steps3: "map_option steps (state (lazy_lm (snd (get_next_step ?g ?s2))))
       = Some [''2+2?'', ''PROBLEM DONE'', ''Check the result'', ''PROBLEM DONE'']"
    unfolding v
    by (simp_all add: Let_def scripted_def text_reply_def add_step_def strip_def isspace_def)
  from first second st2 third sent3 steps3 show ?thesis by simp
qed

subsection \<open>What \<^verbatim>\<open>get_next_step\<close> does with the generated text\<close>

text \<open>
  C2, as stated: when the generated text trims to \<^verbatim>\<open>PROBLEM DONE\<close>, the sentinel is
  returned and \<open>steps\<close> and \<open>current_step\<close> stay as they are. The code does not compare
  the text with the sentinel: it is appended like any other step.
\<close>

theorem sentinel_not_appended_counterexample:
  "fst (get_next_step notebook_globals sentinel_session) = Inr ''PROBLEM DONE''
   \<and> state (lazy_lm sentinel_session)
       = Some \<lparr>problem = ''2+2?'', steps = [''2+2?''], current_step = 0\<rparr>
   \<and> state (lazy_lm (snd (get_next_step notebook_globals sentinel_session)))
       = Some \<lparr>problem = ''2+2?'', steps = [''2+2?'', ''PROBLEM DONE''], current_step = 1\<rparr>"
  by (simp add: get_next_step_def sentinel_session_def demo_defs notebook_system Let_def)

text \<open>
  C2, amended: whenever a tracker is bound, the global \<^verbatim>\<open>system\<close> is bound and the
  backend returns a first content block with text \<open>t\<close>, \<^verbatim>\<open>get_next_step\<close> returns
  \<open>strip t\<close> and appends it with \<^verbatim>\<open>add_step\<close>: \<open>steps\<close> grows by that one text and
  \<open>current_step\<close> by 1, whether or not \<open>strip t\<close> is the sentinel.
\<close>

theorem next_step_appends_trimmed_text:
  assumes "state (lazy_lm s) = Some st" and "g ''system'' = Some sys"
    and "client (lazy_lm s) (sent s)
           \<lparr>req_system = sys, req_model = model (lazy_lm s),
            req_messages = [(''user'', get_context st)],
            req_max_tokens = max_tokens (lazy_lm s)\<rparr> = Inr resp"
    and "content resp = Some t # rest"
  shows "fst (get_next_step g s) = Inr (strip t)
         \<and> state (lazy_lm (snd (get_next_step g s))) = Some (add_step st (strip t))
         \<and> steps (add_step st (strip t)) = steps st @ [strip t]
         \<and> current_step (add_step st (strip t)) = current_step st + 1"
  using assms by (simp add: get_next_step_text [where g = g and s = s] add_step_def)

theorem next_step_appends_trimmed_text_witness:
  "state (lazy_lm sentinel_session) = Some (new_LazyState ''2+2?'' [] 0)
   \<and> notebook_globals ''system'' = Some (Str lazy_system_p)
   \<and> fst (get_next_step notebook_globals sentinel_session) = Inr (strip '' PROBLEM DONE '')
   \<and> state (lazy_lm (snd (get_next_step notebook_globals sentinel_session)))
       = Some (add_step (new_LazyState ''2+2?'' [] 0) (strip '' PROBLEM DONE ''))
   \<and> strip '' PROBLEM DONE '' = ''PROBLEM DONE''"
proof -
  have st: "state (lazy_lm sentinel_session) = Some (new_LazyState ''2+2?'' [] 0)"
    by (simp add: sentinel_session_def demo_session_def)
  have call: "client (lazy_lm sentinel_session) (sent sentinel_session)
           \<lparr>req_system = Str lazy_system_p, req_model = model (lazy_lm sentinel_session),
            req_messages = [(''user'', get_context (new_LazyState ''2+2?'' [] 0))],
            req_max_tokens = max_tokens (lazy_lm sentinel_session)\<rparr>
           = Inr \<lparr>content = [Some '' PROBLEM DONE '']\<rparr>"
    by (simp add: sentinel_session_def demo_session_def scripted_def text_reply_def)
  have resp: "content \<lparr>content = [Some '' PROBLEM DONE '']\<rparr> = Some '' PROBLEM DONE '' # []"
    by simp
  have tr: "strip '' PROBLEM DONE '' = ''PROBLEM DONE''"
    by (simp add: strip_def isspace_def)
  from next_step_appends_trimmed_text
    [where g = notebook_globals and s = sentinel_session, OF st notebook_system call resp]
    st notebook_system tr
  show ?thesis by simp
qed

subsection \<open>Constructing a client in the exported module\<close>

text \<open>
  C3. In the namespace of the exported module, whatever the star imports bind as long
  as they do not bind \<^verbatim>\<open>system\<close>: \<^verbatim>\<open>LazyEvaluationClient(...)\<close> raises \<^verbatim>\<open>NameError\<close>
  for \<^verbatim>\<open>system\<close>, for every \<^verbatim>\<open>llm\<close>, \<^verbatim>\<open>max_tokens\<close> and \<^verbatim>\<open>state\<close>; \<^verbatim>\<open>lazy\<close> raises
  \<^verbatim>\<open>NameError\<close> for every handle and problem (for \<^verbatim>\<open>model\<close>, which it reads first,
  unless a star import binds it, and then for \<^verbatim>\<open>system\<close> in the constructor); and
  \<^verbatim>\<open>get_next_step\<close> on a client with a tracker raises \<^verbatim>\<open>NameError\<close> for \<^verbatim>\<open>system\<close>
  without sending a request or changing the state.
\<close>

theorem construction_raises_NameError:
  assumes "star ''system'' = None"
  shows "module_globals star ''system'' = None
         \<and> module_globals star ''lazy_system_p'' = Some (Str lazy_system_p)
         \<and> LazyEvaluationClient_init (module_globals star) llm mt st = Inl (NameError ''system'')
         \<and> lazy (module_globals star) handle p
             = Inl (NameError (if star ''model'' = None then ''model'' else ''system''))
         \<and> (\<forall>tr. state (lazy_lm s) = Some tr \<longrightarrow>
               get_next_step (module_globals star) s = (Inl (NameError ''system''), s))"
  using assms
  by (auto simp: LazyEvaluationClient_init_def lazy_def get_next_step_def Let_def
      module_globals_system module_globals_model module_globals_lazy_system_p)

theorem construction_raises_NameError_witness:
  "Map.empty ''system'' = (None :: pyval option)
   \<and> module_globals Map.empty ''system'' = None
   \<and> LazyEvaluationClient_init (module_globals Map.empty)
        \<lparr>llm_client = scripted [], llm_model = Str ''claude-3-5-sonnet@20240620''\<rparr> 100
        (Some (new_LazyState ''2+2?'' [] 0)) = Inl (NameError ''system'')
   \<and> lazy (module_globals Map.empty) (scripted []) ''2+2?'' = Inl (NameError ''model'')
   \<and> get_next_step (module_globals Map.empty) sentinel_session
       = (Inl (NameError ''system''), sentinel_session)"
proof -
  have none: "Map.empty ''system'' = (None :: pyval option)" by simp
  have st: "state (lazy_lm sentinel_session) = Some (new_LazyState ''2+2?'' [] 0)"
    by (simp add: sentinel_session_def demo_session_def)
  from construction_raises_NameError [OF none,
      of "\<lparr>llm_client = scripted [], llm_model = Str ''claude-3-5-sonnet@20240620''\<rparr>"
         100 "Some (new_LazyState ''2+2?'' [] 0)" "scripted []" "''2+2?''" sentinel_session]
    st
  show ?thesis by simp
qed

subsection \<open>Constructing a tracker\<close>

text \<open>
  C4, as stated: constructing the tracker fails when the problem is the empty text. The
  dataclass has no check: the empty problem gives a tracker whose only step is the empty
  text.
\<close>

theorem create_rejects_empty_counterexample:
  "create [] = Inr \<lparr>problem = [], steps = [[]], current_step = 0\<rparr>"
  by (simp add: create_def new_LazyState_def post_init_def)

text \<open>
  C4, amended: \<^verbatim>\<open>LazyState(problem=p)\<close> returns normally for every \<open>p\<close>, empty or not,
  with \<open>steps = [p]\<close> and \<open>current_step = 0\<close>.
\<close>

theorem create_always_succeeds:
  "create p = Inr \<lparr>problem = p, steps = [p], current_step = 0\<rparr>"
  by (simp add: create_def new_LazyState_def post_init_def)

subsection \<open>Calls before a tracker is bound\<close>

text \<open>
  C5. With \<^verbatim>\<open>self.state\<close> being \<^verbatim>\<open>None\<close>, \<^verbatim>\<open>get_next_step\<close> raises the \<^verbatim>\<open>ValueError\<close> of
  its guard, "Problem is not initialized, call initalize_problem first", and
  \<^verbatim>\<open>ask_question\<close>, which has no guard, raises \<^verbatim>\<open>AttributeError\<close> when it reads
  \<^verbatim>\<open>self.state.problem\<close>. Neither changes the state or sends a request.
\<close>

theorem uninitialized_calls:
  "state (lazy_lm uninitialized_session) = None
   \<and> get_next_step notebook_globals uninitialized_session
       = (Inl (ValueError ''Problem is not initialized, call initalize_problem first''),
          uninitialized_session)
   \<and> ask_question uninitialized_session ''why?''
       = (Inl (AttributeError ''problem''), uninitialized_session)"
  by (simp add: get_next_step_def ask_question_def uninitialized_session_def demo_session_def)

subsection \<open>Questions\<close>

text \<open>
  C6. No \<^verbatim>\<open>ask_question\<close> call changes the tracker (\<open>problem\<close>, \<open>steps\<close>,
  \<open>current_step\<close>), whether it returns or raises: all it does to the client is to
  extend \<^verbatim>\<open>question_history\<close>. So in every interleaving of \<^verbatim>\<open>get_next_step\<close> and
  \<^verbatim>\<open>ask_question\<close> calls, the tracker after a question is the tracker before it.
\<close>

theorem question_isolation:
  "state (lazy_lm (snd (ask_question s q))) = state (lazy_lm s)
   \<and> (\<exists>added. lazy_lm (snd (ask_question s q)) =
         (lazy_lm s)\<lparr>question_history := question_history (lazy_lm s) @ added\<rparr>)
   \<and> state (lazy_lm (run g s (cmds @ [Question q]))) = state (lazy_lm (run g s cmds))"
  by (simp add: ask_question_state ask_question_frame run_snoc)

text \<open>
  A returning call. An \<^verbatim>\<open>ask_question\<close> call that returns \<open>a\<close> has appended exactly the
  question and then \<open>a\<close> to \<^verbatim>\<open>question_history\<close>, and \<open>a\<close> is the stripped text of the
  first content block the backend returned for this call. If the history stood for a
  sequence of (question, answer) pairs, it then stands for that sequence with the pair
  \<open>(q, a)\<close> added. And the history only grows: through any interleaving of calls the old
  history is a prefix of the new one.
\<close>

lemma ask_question_logs_pair:
  assumes "ask_question s q = (Inr a, s')"
  shows "question_history (lazy_lm s') = question_history (lazy_lm s) @ [q, a]
         \<and> (\<exists>st cur resp t rest.
               state (lazy_lm s) = Some st
               \<and> getitem (steps st) (current_step st) = Inr cur
               \<and> client (lazy_lm s) (sent s)
                   \<lparr>req_system = Str (question_system (system (lazy_lm s)) st cur),
                    req_model = model (lazy_lm s),
                    req_messages = [(''user'', question_prompt (question_history (lazy_lm s)) q)],
                    req_max_tokens = max_tokens (lazy_lm s)\<rparr> = Inr resp
               \<and> content resp = Some t # rest \<and> a = strip t)
         \<and> (\<forall>ps. question_history (lazy_lm s) = log_of_pairs ps \<longrightarrow>
               question_history (lazy_lm s') = log_of_pairs (ps @ [(q, a)]))
         \<and> prefix (question_history (lazy_lm s0)) (question_history (lazy_lm (run g s0 cmds)))"
proof -
  from assms obtain st cur resp t rest where
    *: "state (lazy_lm s) = Some st" "getitem (steps st) (current_step st) = Inr cur"
    "client (lazy_lm s) (sent s)
       \<lparr>req_system = Str (question_system (system (lazy_lm s)) st cur),
        req_model = model (lazy_lm s),
        req_messages = [(''user'', question_prompt (question_history (lazy_lm s)) q)],
        req_max_tokens = max_tokens (lazy_lm s)\<rparr> = Inr resp"
    "content resp = Some t # rest" "a = strip t"
    and h: "question_history (lazy_lm s') = question_history (lazy_lm s) @ [q, a]"
    by (rule ask_question_Inr_cases)
  from * have ex: "\<exists>st cur resp t rest.
               state (lazy_lm s) = Some st
               \<and> getitem (steps st) (current_step st) = Inr cur
               \<and> client (lazy_lm s) (sent s)
                   \<lparr>req_system = Str (question_system (system (lazy_lm s)) st cur),
                    req_model = model (lazy_lm s),
                    req_messages = [(''user'', question_prompt (question_history (lazy_lm s)) q)],
                    req_max_tokens = max_tokens (lazy_lm s)\<rparr> = Inr resp
               \<and> content resp = Some t # rest \<and> a = strip t"
    by blast
  from h have "\<forall>ps. question_history (lazy_lm s) = log_of_pairs ps \<longrightarrow>
               question_history (lazy_lm s') = log_of_pairs (ps @ [(q, a)])"
    by (simp add: log_of_pairs_append)
  with h ex run_history_prefix show ?thesis by blast
qed

lemma ask_question_logs_pair_example:
  "fst (ask_question question_session ''why?'') = Inr ''Because 2 and 2 make 4.''
   \<and> question_history (lazy_lm (snd (ask_question question_session ''why?'')))
       = log_of_pairs [(''why?'', ''Because 2 and 2 make 4.'')]
   \<and> state (lazy_lm (snd (ask_question question_session ''why?'')))
       = state (lazy_lm question_session)"
proof -
  have r: "fst (ask_question question_session ''why?'') = Inr ''Because 2 and 2 make 4.''"
    by (simp add: ask_question_def question_session_def demo_defs getitem_def Let_def)
  then have call: "ask_question question_session ''why?''
      = (Inr ''Because 2 and 2 make 4.'', snd (ask_question question_session ''why?''))"
    by (simp add: prod_eq_iff)
  have h0: "question_history (lazy_lm question_session) = log_of_pairs []"
    by (simp add: question_session_def demo_session_def)
  from ask_question_logs_pair [OF call] h0
  have "question_history (lazy_lm (snd (ask_question question_session ''why?'')))
       = log_of_pairs [(''why?'', ''Because 2 and 2 make 4.'')]"
    by simp
  with r ask_question_state show ?thesis by simp
qed

text \<open>
  C9. The history is not always a sequence of (question, answer) pairs. The question is
  appended before the text of the answer is read, so a call whose answer has no content
  block raises \<^verbatim>\<open>IndexError\<close> with the question already in the history, alone. The
  next returning call adds its question and answer behind it, and the history
  \<^verbatim>\<open>['q1', 'q2', 'x']\<close> stands for no sequence of pairs. On the same answer
  \<^verbatim>\<open>get_next_step\<close> reads the text before it touches the tracker and leaves the tracker
  as it was.
\<close>

theorem failed_question_leaves_lone_question:
  "fst (ask_question dangling_session ''q1'') = Inl IndexError
   \<and> question_history (lazy_lm (snd (ask_question dangling_session ''q1''))) = [''q1'']
   \<and> fst (ask_question (snd (ask_question dangling_session ''q1'')) ''q2'') = Inr ''x''
   \<and> question_history (lazy_lm (snd (ask_question (snd (ask_question dangling_session ''q1'')) ''q2'')))
       = [''q1'', ''q2'', ''x'']
   \<and> (\<forall>ps. log_of_pairs ps \<noteq> [''q1'', ''q2'', ''x''])
   \<and> fst (get_next_step notebook_globals dangling_session) = Inl IndexError
   \<and> state (lazy_lm (snd (get_next_step notebook_globals dangling_session)))
       = state (lazy_lm dangling_session)"
proof -
  have "log_of_pairs ps \<noteq> [''q1'', ''q2'', ''x'']" for ps
  proof
    assume "log_of_pairs ps = [''q1'', ''q2'', ''x'']"
    then have "length (log_of_pairs ps) = 3" by simp
    with length_log_of_pairs [of ps] show False by simp
  qed
  then show ?thesis
    by (simp add: ask_question_def get_next_step_def dangling_session_def demo_defs
        notebook_system getitem_def Let_def)
qed

subsection \<open>The context\<close>

text \<open>
  C10. \<^verbatim>\<open>get_context\<close> depends on the problem and the steps only: trackers with equal
  \<open>problem\<close> and equal \<open>steps\<close> render the same text. The text starts with
  \<^verbatim>\<open>Problem: \<close> and the problem and ends with the \<^verbatim>\<open>repr\<close> of the list of steps, and it
  holds the problem and the whole ordered list of steps: trackers that render the same
  text have the same problem and the same steps.
\<close>

theorem context_rendering:
  "(problem s = problem t \<and> steps s = steps t \<longrightarrow> get_context s = get_context t)
   \<and> prefix (''Problem: '' @ problem s) (get_context s)
   \<and> suffix (repr_list (steps s)) (get_context s)
   \<and> (get_context s = get_context t \<longrightarrow> problem s = problem t \<and> steps s = steps t)"
proof -
  have "prefix (''Problem: '' @ problem s) (get_context s)"
    by (simp add: get_context_def)
  moreover have "get_context s =
      (''Problem: '' @ problem s @ [CHR '' '', CHR 0x0A] @ '' Steps so far: '') @ repr_list (steps s)"
    by (simp add: get_context_def)
  then have "suffix (repr_list (steps s)) (get_context s)"
    by (rule suffixI)
  moreover have "problem s = problem t \<and> steps s = steps t \<longrightarrow> get_context s = get_context t"
    by (simp add: get_context_def)
  ultimately show ?thesis
    using get_context_inj [of s t] by blast
qed

theorem context_rendering_witness:
  "problem \<lparr>problem = ''2+2?'', steps = [''2+2?'', ''Add 2 and 2''], current_step = 1\<rparr>
     = problem \<lparr>problem = ''2+2?'', steps = [''2+2?'', ''Add 2 and 2''], current_step = 0\<rparr>
   \<and> get_context \<lparr>problem = ''2+2?'', steps = [''2+2?'', ''Add 2 and 2''], current_step = 1\<rparr>
     = get_context \<lparr>problem = ''2+2?'', steps = [''2+2?'', ''Add 2 and 2''], current_step = 0\<rparr>
   \<and> get_context \<lparr>problem = ''2+2?'', steps = [''2+2?'', ''Add 2 and 2''], current_step = 1\<rparr>
     = ''Problem: 2+2? '' @ [CHR 0x0A] @ '' Steps so far: ['' @ [CHR 0x27] @ ''2+2?''
         @ [CHR 0x27] @ '', '' @ [CHR 0x27] @ ''Add 2 and 2'' @ [CHR 0x27] @ '']''"
proof -
  have "get_context \<lparr>problem = ''2+2?'', steps = [''2+2?'', ''Add 2 and 2''], current_step = 1\<rparr>
     = ''Problem: 2+2? '' @ [CHR 0x0A] @ '' Steps so far: ['' @ [CHR 0x27] @ ''2+2?''
         @ [CHR 0x27] @ '', '' @ [CHR 0x27] @ ''Add 2 and 2'' @ [CHR 0x27] @ '']''"
    by (simp add: get_context_def repr_list_def repr_str_def repr_quote_def repr_char_def
        isprintable_def Let_def)
  with context_rendering
    [of "\<lparr>problem = ''2+2?'', steps = [''2+2?'', ''Add 2 and 2''], current_step = 1\<rparr>"
        "\<lparr>problem = ''2+2?'', steps = [''2+2?'', ''Add 2 and 2''], current_step = 0\<rparr>"]
  show ?thesis by simp
qed

end
